theory Spec2Isabelle
  imports Complex_Main "HOL-Library.Word" "HOL-Library.Multiset" "HOL-Library.Product_Lexorder"
begin

section \<open>Conventions of the embedding\<close>

text \<open>
  The lesson playback engine is written in TypeScript. Its \<^verbatim>\<open>number\<close> values are modelled
  as \<^typ>\<open>real\<close>: every statement below is about exact arithmetic on finite numbers, and
  says nothing about rounding, \<^verbatim>\<open>NaN\<close> or the infinities. A TypeScript string is a
  sequence of UTF-16 code units, which is what \<^verbatim>\<open>length\<close> counts and what a regular
  expression inspects, so a string is a list of 16-bit words. An interface becomes a
  record whose fields carry a short prefix where two interfaces share a field name or
  the name is taken in HOL; a union of string literals becomes a datatype.
\<close>

type_synonym jsstring = "16 word list"

section \<open>Engine state (timeline module)\<close>

datatype EngineStatus = Idle | Loading | Ready | Playing | Paused | Error

record EngineState =
  isPlaying :: bool
  currentTime :: real
  duration :: real
  playbackRate :: real
  status :: EngineStatus

definition MIN_PLAYBACK_RATE :: real where
  "MIN_PLAYBACK_RATE = 0.25"

definition MAX_PLAYBACK_RATE :: real where
  "MAX_PLAYBACK_RATE = 4.0"

text \<open>\<^verbatim>\<open>Math.min(Math.max(value, 0), 1)\<close> and \<^verbatim>\<open>Math.min(Math.max(value, min), max)\<close>.\<close>

definition clamp01 :: "real \<Rightarrow> real" where
  "clamp01 v = min (max v 0) 1"

definition clampTime :: "real \<Rightarrow> real \<Rightarrow> real \<Rightarrow> real" where
  "clampTime v lo hi = min (max v lo) hi"

definition createInitialEngineState :: EngineState where
  "createInitialEngineState =
     \<lparr>isPlaying = False, currentTime = 0, duration = 0, playbackRate = 1, status = Idle\<rparr>"

text \<open>
  The object spread \<^verbatim>\<open>{ ...state, f: v }\<close> copies every field and then overrides the
  listed ones: a record update. \<^verbatim>\<open>{ ...state }\<close> is a copy with the same field values.
\<close>

definition advanceEngineState :: "EngineState \<Rightarrow> real \<Rightarrow> EngineState" where
  "advanceEngineState state deltaMs =
     (if \<not> isPlaying state \<or> status state \<noteq> Playing then state
      else
        let newTime = currentTime state + deltaMs * playbackRate state in
        if newTime \<ge> duration state
        then state\<lparr>currentTime := duration state, isPlaying := False, status := Ready\<rparr>
        else state\<lparr>currentTime := max 0 newTime\<rparr>)"

definition pauseEngine :: "EngineState \<Rightarrow> EngineState" where
  "pauseEngine state =
     (if \<not> isPlaying state then state
      else state\<lparr>isPlaying := False, status := Paused\<rparr>)"

definition resumeEngine :: "EngineState \<Rightarrow> EngineState" where
  "resumeEngine state =
     (if status state \<noteq> Paused \<and> status state \<noteq> Ready then state
      else state\<lparr>isPlaying := True, status := Playing\<rparr>)"

definition seekEngine :: "EngineState \<Rightarrow> real \<Rightarrow> EngineState" where
  "seekEngine state time = state\<lparr>currentTime := clampTime time 0 (duration state)\<rparr>"

definition setPlaybackRate :: "EngineState \<Rightarrow> real \<Rightarrow> EngineState" where
  "setPlaybackRate state rate =
     state\<lparr>playbackRate := clampTime rate MIN_PLAYBACK_RATE MAX_PLAYBACK_RATE\<rparr>"

definition setEngineStatus :: "EngineState \<Rightarrow> EngineStatus \<Rightarrow> EngineState" where
  "setEngineStatus state st =
     (let playing = (st = Playing) in state\<lparr>status := st, isPlaying := playing\<rparr>)"

definition setEngineDuration :: "EngineState \<Rightarrow> real \<Rightarrow> EngineState" where
  "setEngineDuration state d =
     (let nextStatus = (if status state = Loading \<or> status state = Idle then Ready
                        else status state)
      in state\<lparr>duration := max 0 d, status := nextStatus\<rparr>)"

text \<open>The data-model invariant of the engine state: the flag and the status agree.\<close>

definition playingAgrees :: "EngineState \<Rightarrow> bool" where
  "playingAgrees s = (isPlaying s = (status s = Playing))"

text \<open>
  The advance reaches the end of the timeline: the state is playing and the elapsed
  time carries the clock to the duration or beyond.
\<close>

definition advanceCompletes :: "EngineState \<Rightarrow> real \<Rightarrow> bool" where
  "advanceCompletes s deltaMs =
     (isPlaying s \<and> status s = Playing \<and>
      currentTime s + deltaMs * playbackRate s \<ge> duration s)"

text \<open>A playing state one second into a ten-second timeline, used as a concrete input.\<close>

definition playingAt1000 :: EngineState where
  "playingAt1000 =
     \<lparr>isPlaying = True, currentTime = 1000, duration = 10000, playbackRate = 1,
      status = Playing\<rparr>"

section \<open>Sorting as the runtime does it\<close>

text \<open>
  \<^verbatim>\<open>Array.prototype.sort\<close> belongs to the language runtime, not to the repository. It is
  specified to be stable, and a comparator \<open>cmp\<close> places \<open>a\<close> before \<open>b\<close> when
  \<open>cmp a b\<close> is negative. For a comparator that orders its arguments consistently there
  is exactly one stable sorted arrangement; insertion from the right computes it: each
  element is put in front of the first element of the sorted rest that it does not
  exceed, so elements that compare equal keep their input order.
\<close>

fun insertSorted :: "('a \<Rightarrow> 'a \<Rightarrow> real) \<Rightarrow> 'a \<Rightarrow> 'a list \<Rightarrow> 'a list" where
  "insertSorted cmp v [] = [v]"
| "insertSorted cmp v (w # ws) =
     (if cmp v w \<le> 0 then v # w # ws else w # insertSorted cmp v ws)"

definition jsSort :: "('a \<Rightarrow> 'a \<Rightarrow> real) \<Rightarrow> 'a list \<Rightarrow> 'a list" where
  "jsSort cmp vs = foldr (insertSorted cmp) vs []"

section \<open>Timeline events and tracks (timeline module)\<close>

record Point =
  px :: real
  py :: real

datatype TimelineEventType = CursorMove | DrawStroke | TextHighlight | NarrationSegment | Pause

text \<open>Every payload field is optional in the source.\<close>

record TimelineEventPayload =
  pl_position :: "Point option"
  pl_path :: "Point list option"
  pl_text :: "jsstring option"
  pl_audioUrl :: "jsstring option"
  pl_color :: "jsstring option"
  pl_strokeWidth :: "real option"

record TimelineEvent =
  ev_id :: jsstring
  ev_type :: TimelineEventType
  ev_startTime :: real
  ev_endTime :: real
  ev_payload :: TimelineEventPayload

datatype TrackType = Cursor | Drawing | Text | Narration | Highlight

record TimelineTrack =
  trk_id :: jsstring
  trk_type :: TrackType
  trk_events :: "TimelineEvent list"
  trk_locked :: bool
  trk_visible :: bool

datatype Severity = SeverityWarning | SeverityError

text \<open>
  The message of a validation entry is one of three template strings with values
  spliced in. The model keeps which template it is and the spliced values, and leaves
  the rendering of numbers as decimal text (\<^verbatim>\<open>toFixed\<close>) out:
  \<^item> \<^verbatim>\<open>Event has non-positive duration (start=..., end=...)\<close>
  \<^item> \<^verbatim>\<open>Event overlaps with previous event "..." by ...ms\<close>
  \<^item> \<^verbatim>\<open>Large gap of ...ms before event\<close>
\<close>

datatype ValidationMessage =
    NonPositiveDuration real real
  | OverlapsPrevious jsstring real
  | LargeGap real

record TimelineValidationError =
  err_eventId :: jsstring
  err_message :: ValidationMessage
  err_severity :: Severity

record TimelineBuildResult =
  res_tracks :: "TimelineTrack list"
  res_duration :: real
  res_eventCount :: nat
  res_errors :: "TimelineValidationError list"

text \<open>
  The exceptions of the module. One is raised by its only \<^verbatim>\<open>throw\<close> statement:
  \<^verbatim>\<open>Cannot merge tracks of different types: "a" and "b"\<close>. The other is raised by the
  engine: a call with spread arguments, \<^verbatim>\<open>f(...values)\<close>, passes every element of the
  array as an argument of its own, and the engine throws a \<^verbatim>\<open>RangeError\<close> when there are
  more of them than it can pass in one call.
\<close>

datatype TimelineError = MergeTypeMismatch TrackType TrackType | RangeError

definition OVERLAP_TOLERANCE_MS :: real where
  "OVERLAP_TOLERANCE_MS = 1"

definition GAP_WARNING_THRESHOLD_MS :: real where
  "GAP_WARNING_THRESHOLD_MS = 5000"

text \<open>
  \<^verbatim>\<open>generateId\<close> reads the clock and the random generator. Every function that calls it
  takes the generated identifier as an argument instead.
\<close>

definition createTimelineEvent ::
  "jsstring \<Rightarrow> TimelineEventType \<Rightarrow> real \<Rightarrow> real \<Rightarrow> TimelineEventPayload \<Rightarrow> TimelineEvent" where
  "createTimelineEvent newId ty startTime endTime payload =
     \<lparr>ev_id = newId, ev_type = ty, ev_startTime = startTime, ev_endTime = endTime,
      ev_payload = payload\<rparr>"

definition getEventsAtTime :: "TimelineEvent list \<Rightarrow> real \<Rightarrow> TimelineEvent list" where
  "getEventsAtTime events time =
     filter (\<lambda>e. time \<ge> ev_startTime e \<and> time < ev_endTime e) events"

definition getEventsByType :: "TimelineEvent list \<Rightarrow> TimelineEventType \<Rightarrow> TimelineEvent list" where
  "getEventsByType events ty = filter (\<lambda>e. ev_type e = ty) events"

text \<open>
  The comparator \<^verbatim>\<open>a.startTime - b.startTime || a.endTime - b.endTime\<close>: the first
  difference unless it is zero, else the second.
\<close>

definition eventOrder :: "TimelineEvent \<Rightarrow> TimelineEvent \<Rightarrow> real" where
  "eventOrder a b =
     (if ev_startTime a - ev_startTime b \<noteq> 0 then ev_startTime a - ev_startTime b
      else ev_endTime a - ev_endTime b)"

definition sortTimelineEvents :: "TimelineEvent list \<Rightarrow> TimelineEvent list" where
  "sortTimelineEvents events = jsSort eventOrder events"

text \<open>
  \<^verbatim>\<open>Math.max(...events.map((e) => e.endTime))\<close>: the largest of the values when the
  engine can pass them all as arguments, a \<^verbatim>\<open>RangeError\<close> otherwise. How many arguments
  one call can take depends on the engine and on its stack, not on the repository, so
  the number is the parameter \<open>argLimit\<close>.
\<close>

definition calculateTimelineDuration :: "nat \<Rightarrow> TimelineEvent list \<Rightarrow> TimelineError + real" where
  "calculateTimelineDuration argLimit events =
     (if length events = 0 then Inr 0
      else if length (map ev_endTime events) > argLimit then Inl RangeError
      else Inr (fold max (tl (map ev_endTime events)) (hd (map ev_endTime events))))"

definition createTimelineTrack :: "jsstring \<Rightarrow> TrackType \<Rightarrow> TimelineEvent list \<Rightarrow> TimelineTrack" where
  "createTimelineTrack newId ty events =
     \<lparr>trk_id = newId, trk_type = ty, trk_events = events, trk_locked = False,
      trk_visible = True\<rparr>"

definition addEventToTrack :: "TimelineTrack \<Rightarrow> TimelineEvent \<Rightarrow> TimelineTrack" where
  "addEventToTrack track event =
     (if trk_locked track then track
      else track\<lparr>trk_events := trk_events track @ [event]\<rparr>)"

definition removeEventFromTrack :: "TimelineTrack \<Rightarrow> jsstring \<Rightarrow> TimelineTrack" where
  "removeEventFromTrack track eventId =
     (if trk_locked track then track
      else track\<lparr>trk_events := filter (\<lambda>e. ev_id e \<noteq> eventId) (trk_events track)\<rparr>)"

definition toggleTrackVisibility :: "TimelineTrack \<Rightarrow> TimelineTrack" where
  "toggleTrackVisibility track = track\<lparr>trk_visible := \<not> trk_visible track\<rparr>"

definition lockTrack :: "TimelineTrack \<Rightarrow> TimelineTrack" where
  "lockTrack track = track\<lparr>trk_locked := True\<rparr>"

definition unlockTrack :: "TimelineTrack \<Rightarrow> TimelineTrack" where
  "unlockTrack track = track\<lparr>trk_locked := False\<rparr>"

text \<open>
  \<^verbatim>\<open>validateTimeline\<close> makes two passes over the sorted events of each track, both
  pushing onto the one result array: first the events of non-positive duration, then,
  for each event after the first, the overlap with and the gap to its predecessor.
\<close>

fun durationErrors :: "TimelineEvent list \<Rightarrow> TimelineValidationError list" where
  "durationErrors [] = []"
| "durationErrors (event # rest) =
     (if ev_endTime event \<le> ev_startTime event
      then [\<lparr>err_eventId = ev_id event,
             err_message = NonPositiveDuration (ev_startTime event) (ev_endTime event),
             err_severity = SeverityError\<rparr>]
      else []) @ durationErrors rest"

fun neighbourErrors :: "TimelineEvent \<Rightarrow> TimelineEvent list \<Rightarrow> TimelineValidationError list" where
  "neighbourErrors prev [] = []"
| "neighbourErrors prev (cur # rest) =
     (let overlap = ev_endTime prev - ev_startTime cur;
          gap = ev_startTime cur - ev_endTime prev
      in (if overlap > OVERLAP_TOLERANCE_MS
          then [\<lparr>err_eventId = ev_id cur,
                 err_message = OverlapsPrevious (ev_id prev) overlap,
                 err_severity = SeverityError\<rparr>]
          else []) @
         (if gap > GAP_WARNING_THRESHOLD_MS
          then [\<lparr>err_eventId = ev_id cur, err_message = LargeGap gap,
                 err_severity = SeverityWarning\<rparr>]
          else []) @
         neighbourErrors cur rest)"

definition validateTrack :: "TimelineTrack \<Rightarrow> TimelineValidationError list" where
  "validateTrack track =
     (let sorted = sortTimelineEvents (trk_events track)
      in durationErrors sorted @
         (case sorted of [] \<Rightarrow> [] | first # rest \<Rightarrow> neighbourErrors first rest))"

definition validateTimeline :: "TimelineTrack list \<Rightarrow> TimelineValidationError list" where
  "validateTimeline tracks = concat (map validateTrack tracks)"

text \<open>
  \<^verbatim>\<open>buildTimeline\<close> and \<^verbatim>\<open>clampToTimeline\<close> call \<^verbatim>\<open>calculateTimelineDuration\<close> and do
  not catch what it throws.
\<close>

definition buildTimeline :: "nat \<Rightarrow> TimelineTrack list \<Rightarrow> TimelineError + TimelineBuildResult" where
  "buildTimeline argLimit tracks =
     (let allEvents = concat (map trk_events tracks) in
      case calculateTimelineDuration argLimit allEvents of
        Inl err \<Rightarrow> Inl err
      | Inr dur \<Rightarrow>
          (let eventCount = length allEvents;
               errors = validateTimeline tracks
           in Inr \<lparr>res_tracks =
                      map (\<lambda>t. t\<lparr>trk_events := sortTimelineEvents (trk_events t)\<rparr>) tracks,
                    res_duration = dur, res_eventCount = eventCount, res_errors = errors\<rparr>))"

definition getTimelineProgress :: "real \<Rightarrow> real \<Rightarrow> real" where
  "getTimelineProgress time dur = (if dur \<le> 0 then 0 else clamp01 (time / dur))"

definition getActiveTracksAtTime :: "TimelineTrack list \<Rightarrow> real \<Rightarrow> TimelineTrack list" where
  "getActiveTracksAtTime tracks time =
     filter (\<lambda>t. trk_visible t \<and>
                 list_ex (\<lambda>e. time \<ge> ev_startTime e \<and> time < ev_endTime e) (trk_events t))
       tracks"

definition mergeTimelineTracks ::
  "jsstring \<Rightarrow> TimelineTrack \<Rightarrow> TimelineTrack \<Rightarrow> TimelineError + TimelineTrack" where
  "mergeTimelineTracks newId a b =
     (if trk_type a \<noteq> trk_type b then Inl (MergeTypeMismatch (trk_type a) (trk_type b))
      else Inr \<lparr>trk_id = newId, trk_type = trk_type a,
                trk_events = sortTimelineEvents (trk_events a @ trk_events b),
                trk_locked = trk_locked a, trk_visible = trk_visible a\<rparr>)"

definition clampToTimeline :: "nat \<Rightarrow> TimelineEvent list \<Rightarrow> real \<Rightarrow> TimelineError + real" where
  "clampToTimeline argLimit events time =
     (case calculateTimelineDuration argLimit events of
        Inl err \<Rightarrow> Inl err
      | Inr dur \<Rightarrow> Inr (clampTime time 0 dur))"

definition getTracksByType :: "TimelineTrack list \<Rightarrow> TrackType \<Rightarrow> TimelineTrack list" where
  "getTracksByType tracks ty = filter (\<lambda>t. trk_type t = ty) tracks"

definition getAllEventsFromTracks :: "TimelineTrack list \<Rightarrow> TimelineEvent list" where
  "getAllEventsFromTracks tracks = sortTimelineEvents (concat (map trk_events tracks))"

text \<open>
  The order that the comparator of \<^verbatim>\<open>sortTimelineEvents\<close> describes: ascending by
  \<^verbatim>\<open>startTime\<close>, ties broken by \<^verbatim>\<open>endTime\<close>.
\<close>

definition eventKey :: "TimelineEvent \<Rightarrow> real \<times> real" where
  "eventKey e = (ev_startTime e, ev_endTime e)"

definition notAfter :: "TimelineEvent \<Rightarrow> TimelineEvent \<Rightarrow> bool" where
  "notAfter a b =
     (ev_startTime a < ev_startTime b \<or>
      (ev_startTime a = ev_startTime b \<and> ev_endTime a \<le> ev_endTime b))"

text \<open>Concrete events and tracks for the validation and merge scenarios.\<close>

definition noPayload :: TimelineEventPayload where
  "noPayload =
     \<lparr>pl_position = None, pl_path = None, pl_text = None, pl_audioUrl = None,
      pl_color = None, pl_strokeWidth = None\<rparr>"

definition eventA :: TimelineEvent where
  "eventA = createTimelineEvent [0x61] CursorMove 0 1000 noPayload"

definition eventB :: TimelineEvent where
  "eventB = createTimelineEvent [0x62] CursorMove 1000 2000 noPayload"

definition eventC :: TimelineEvent where
  "eventC = createTimelineEvent [0x63] CursorMove 900 2000 noPayload"

definition eventD :: TimelineEvent where
  "eventD = createTimelineEvent [0x64] CursorMove 10000 11000 noPayload"

definition cursorTrack :: "TimelineEvent list \<Rightarrow> TimelineTrack" where
  "cursorTrack events = createTimelineTrack [0x74] Cursor events"

definition drawingTrack :: "TimelineEvent list \<Rightarrow> TimelineTrack" where
  "drawingTrack events = createTimelineTrack [0x75] Drawing events"

section \<open>Geometry module\<close>

record BezierCurve =
  bz_start :: Point
  bz_cp1 :: Point
  bz_cp2 :: Point
  bz_end :: Point

record Stroke =
  stk_id :: jsstring
  stk_points :: "Point list"
  stk_color :: jsstring
  stk_width :: real
  stk_opacity :: real

definition distance :: "Point \<Rightarrow> Point \<Rightarrow> real" where
  "distance a b = (let dx = px b - px a; dy = py b - py a in sqrt (dx * dx + dy * dy))"

definition lerpPoint :: "Point \<Rightarrow> Point \<Rightarrow> real \<Rightarrow> Point" where
  "lerpPoint a b t = \<lparr>px = px a + (px b - px a) * t, py = py a + (py b - py a) * t\<rparr>"

definition evaluateBezierPoint :: "BezierCurve \<Rightarrow> real \<Rightarrow> Point" where
  "evaluateBezierPoint curve t =
     (let ct = clamp01 t;
          u = 1 - ct;
          u2 = u * u;
          u3 = u2 * u;
          ct2 = ct * ct;
          ct3 = ct2 * ct
      in \<lparr>px = u3 * px (bz_start curve) + 3 * u2 * ct * px (bz_cp1 curve) +
               3 * u * ct2 * px (bz_cp2 curve) + ct3 * px (bz_end curve),
          py = u3 * py (bz_start curve) + 3 * u2 * ct * py (bz_cp1 curve) +
               3 * u * ct2 * py (bz_cp2 curve) + ct3 * py (bz_end curve)\<rparr>)"

definition splitBezierAt :: "BezierCurve \<Rightarrow> real \<Rightarrow> BezierCurve \<times> BezierCurve" where
  "splitBezierAt curve t =
     (let ct = clamp01 t;
          a = lerpPoint (bz_start curve) (bz_cp1 curve) ct;
          b = lerpPoint (bz_cp1 curve) (bz_cp2 curve) ct;
          c = lerpPoint (bz_cp2 curve) (bz_end curve) ct;
          d = lerpPoint a b ct;
          e = lerpPoint b c ct;
          mid = lerpPoint d e ct
      in (\<lparr>bz_start = bz_start curve, bz_cp1 = a, bz_cp2 = d, bz_end = mid\<rparr>,
          \<lparr>bz_start = mid, bz_cp1 = e, bz_cp2 = c, bz_end = bz_end curve\<rparr>))"

text \<open>
  The loop of \<^verbatim>\<open>calculatePathLength\<close>: \<open>len\<close> is the running sum, \<open>prev\<close> the point
  \<^verbatim>\<open>points[i - 1]\<close> and the list the points from index \<open>i\<close> on.
\<close>

fun pathLengthLoop :: "real \<Rightarrow> Point \<Rightarrow> Point list \<Rightarrow> real" where
  "pathLengthLoop len prev [] = len"
| "pathLengthLoop len prev (cur # rest) = pathLengthLoop (len + distance prev cur) cur rest"

definition calculatePathLength :: "Point list \<Rightarrow> real" where
  "calculatePathLength points =
     (if length points < 2 then 0 else pathLengthLoop 0 (hd points) (tl points))"

text \<open>
  The loop of \<^verbatim>\<open>getStrokeProgress\<close>, returning the points it pushes onto \<^verbatim>\<open>result\<close>:
  every point before the segment on which the accumulated length reaches the target,
  then the point interpolated on that segment, where the loop returns.
\<close>

fun strokeProgressLoop :: "real \<Rightarrow> real \<Rightarrow> Point \<Rightarrow> Point list \<Rightarrow> Point list" where
  "strokeProgressLoop targetLength accumulated prev [] = []"
| "strokeProgressLoop targetLength accumulated prev (cur # rest) =
     (let segLen = distance prev cur in
      if accumulated + segLen \<ge> targetLength
      then (let remaining = targetLength - accumulated;
                t = (if segLen = 0 then 0 else remaining / segLen)
            in [\<lparr>px = px prev + (px cur - px prev) * t,
                  py = py prev + (py cur - py prev) * t\<rparr>])
      else cur # strokeProgressLoop targetLength (accumulated + segLen) cur rest)"

definition getStrokeProgress :: "Stroke \<Rightarrow> real \<Rightarrow> Point list" where
  "getStrokeProgress stroke progress =
     (if length (stk_points stroke) = 0 then []
      else if progress \<le> 0 then []
      else if progress \<ge> 1 then stk_points stroke
      else
        let totalLength = calculatePathLength (stk_points stroke);
            targetLength = totalLength * clamp01 progress
        in hd (stk_points stroke) #
           strokeProgressLoop targetLength 0 (hd (stk_points stroke)) (tl (stk_points stroke)))"

text \<open>A stroke along three sides of a square of side 10, used as a concrete input.\<close>

definition cornerStroke :: Stroke where
  "cornerStroke =
     \<lparr>stk_id = [0x73], stk_points = [\<lparr>px = 0, py = 0\<rparr>, \<lparr>px = 10, py = 0\<rparr>,
        \<lparr>px = 10, py = 10\<rparr>, \<lparr>px = 0, py = 10\<rparr>],
      stk_color = [0x23, 0x66, 0x66, 0x66], stk_width = 2, stk_opacity = 1\<rparr>"

definition sampleCurve :: BezierCurve where
  "sampleCurve =
     \<lparr>bz_start = \<lparr>px = 0, py = 0\<rparr>, bz_cp1 = \<lparr>px = 0, py = 8\<rparr>,
      bz_cp2 = \<lparr>px = 8, py = 8\<rparr>, bz_end = \<lparr>px = 8, py = 0\<rparr>\<rparr>"

section \<open>Narration module\<close>

record WordTiming =
  wt_word :: jsstring
  wt_startTime :: real
  wt_endTime :: real
  wt_index :: nat

record NarrationSegmentConfig =
  seg_id :: jsstring
  seg_text :: jsstring
  seg_startTime :: real
  seg_endTime :: real
  seg_audioUrl :: "jsstring option"
  seg_wordTimings :: "WordTiming list"

text \<open>
  The code units that the character class \<^verbatim>\<open>\s\<close> of a regular expression matches: tab,
  line feed, vertical tab, form feed, carriage return, space, no-break space, the
  Unicode space separators, the line and paragraph separators, and the byte order mark.
\<close>

definition isWhiteSpace :: "16 word \<Rightarrow> bool" where
  "isWhiteSpace c =
     (c = 0x09 \<or> c = 0x0A \<or> c = 0x0B \<or> c = 0x0C \<or> c = 0x0D \<or> c = 0x20 \<or> c = 0xA0 \<or>
      c = 0x1680 \<or> (0x2000 \<le> c \<and> c \<le> 0x200A) \<or> c = 0x2028 \<or> c = 0x2029 \<or>
      c = 0x202F \<or> c = 0x205F \<or> c = 0x3000 \<or> c = 0xFEFF)"

text \<open>
  \<^verbatim>\<open>text.split(/\s+/)\<close>: the pieces of the text between the maximal runs of white space,
  an empty piece included where the text begins or ends with white space. \<open>piece\<close> is
  the piece read so far.
\<close>

function splitWhiteSpace :: "jsstring \<Rightarrow> jsstring \<Rightarrow> jsstring list" where
  "splitWhiteSpace piece [] = [piece]"
| "splitWhiteSpace piece (c # cs) =
     (if isWhiteSpace c then piece # splitWhiteSpace [] (dropWhile isWhiteSpace cs)
      else splitWhiteSpace (piece @ [c]) cs)"
  by pat_completeness auto
termination
  by (relation "measure (\<lambda>(piece, cs). length cs)")
    (auto simp add: less_Suc_eq_le length_dropWhile_le)

text \<open>
  The main loop of \<^verbatim>\<open>estimateWordTimings\<close>: \<open>n\<close> is \<^verbatim>\<open>words.length\<close>, \<open>i\<close> the loop
  index, \<open>cursor\<close> the running start time and the list the words from index \<open>i\<close> on.
\<close>

fun wordTimingLoop ::
  "nat \<Rightarrow> nat \<Rightarrow> real \<Rightarrow> real \<Rightarrow> nat \<Rightarrow> real \<Rightarrow> jsstring list \<Rightarrow> WordTiming list" where
  "wordTimingLoop n totalChars totalDuration endTime i cursor [] = []"
| "wordTimingLoop n totalChars totalDuration endTime i cursor (word # rest) =
     (let proportion = real (length word) / real totalChars;
          wordDuration = totalDuration * proportion;
          wordEnd = (if i = n - 1 then endTime else cursor + wordDuration)
      in \<lparr>wt_word = word, wt_startTime = cursor, wt_endTime = wordEnd, wt_index = i\<rparr> #
         wordTimingLoop n totalChars totalDuration endTime (i + 1) wordEnd rest)"

definition estimateWordTimings :: "jsstring \<Rightarrow> real \<Rightarrow> real \<Rightarrow> WordTiming list" where
  "estimateWordTimings text startTime endTime =
     (let words = filter (\<lambda>w. length w > 0) (splitWhiteSpace [] text) in
      if length words = 0 then []
      else
        let totalChars = foldl (\<lambda>sum w. sum + length w) 0 words;
            totalDuration = endTime - startTime
        in if totalDuration \<le> 0 \<or> totalChars = 0
           then map (\<lambda>(index, word).
                       \<lparr>wt_word = word, wt_startTime = startTime, wt_endTime = startTime,
                        wt_index = index\<rparr>)
                  (List.enumerate 0 words)
           else wordTimingLoop (length words) totalChars totalDuration endTime 0 startTime words)"

definition createNarrationSegment ::
  "jsstring \<Rightarrow> jsstring \<Rightarrow> real \<Rightarrow> real \<Rightarrow> jsstring option \<Rightarrow> NarrationSegmentConfig" where
  "createNarrationSegment newId text startTime dur audioUrl =
     (let endTime = startTime + dur
      in \<lparr>seg_id = newId, seg_text = text, seg_startTime = startTime, seg_endTime = endTime,
          seg_audioUrl = audioUrl,
          seg_wordTimings = estimateWordTimings text startTime endTime\<rparr>)"

text \<open>\<^verbatim>\<open>parts.join(sep)\<close>.\<close>

fun joinWith :: "jsstring \<Rightarrow> jsstring list \<Rightarrow> jsstring" where
  "joinWith sep [] = []"
| "joinWith sep [part] = part"
| "joinWith sep (part # nxt # rest) = part @ sep @ joinWith sep (nxt # rest)"

text \<open>
  The nested iteration of \<^verbatim>\<open>collapseGroup\<close> pushes a copy of every word timing of every
  segment, in order, with \<^verbatim>\<open>index: wordIndex++\<close>.
\<close>

fun reindexTimings :: "nat \<Rightarrow> WordTiming list \<Rightarrow> WordTiming list" where
  "reindexTimings wordIndex [] = []"
| "reindexTimings wordIndex (wt # rest) =
     \<lparr>wt_word = wt_word wt, wt_startTime = wt_startTime wt, wt_endTime = wt_endTime wt,
      wt_index = wordIndex\<rparr> # reindexTimings (wordIndex + 1) rest"

text \<open>
  A group is never empty: it is created holding one segment and only grows. The model
  carries it as its first segment and the list of the others, so \<^verbatim>\<open>group[0]\<close> is
  \<open>first\<close> and \<^verbatim>\<open>group.length === 1\<close> says that there are no others.
\<close>

definition collapseGroup ::
  "jsstring \<Rightarrow> NarrationSegmentConfig \<Rightarrow> NarrationSegmentConfig list \<Rightarrow> NarrationSegmentConfig" where
  "collapseGroup newId first others =
     (if length (first # others) = 1 then first
      else
        let group = first # others;
            lastSeg = last group;
            combinedText = joinWith [0x20] (map seg_text group);
            audioUrl = (case find (\<lambda>s. seg_audioUrl s \<noteq> None) group of
                          None \<Rightarrow> None | Some s \<Rightarrow> seg_audioUrl s);
            combinedTimings = reindexTimings 0 (concat (map seg_wordTimings group))
        in \<lparr>seg_id = newId, seg_text = combinedText, seg_startTime = seg_startTime first,
            seg_endTime = seg_endTime lastSeg, seg_audioUrl = audioUrl,
            seg_wordTimings = combinedTimings\<rparr>)"

text \<open>The comparator \<^verbatim>\<open>a.startTime - b.startTime\<close> of \<^verbatim>\<open>mergeAdjacentSegments\<close>.\<close>

definition segmentOrder :: "NarrationSegmentConfig \<Rightarrow> NarrationSegmentConfig \<Rightarrow> real" where
  "segmentOrder a b = seg_startTime a - seg_startTime b"

text \<open>
  The loop of \<^verbatim>\<open>mergeAdjacentSegments\<close> over the sorted segments after the first.
  \<open>ids\<close> enumerates the identifiers that successive calls of \<^verbatim>\<open>generateId\<close> return and
  \<open>k\<close> counts the calls made so far; a group of one segment keeps its identifier and
  makes no call.
\<close>

fun mergeLoop ::
  "(nat \<Rightarrow> jsstring) \<Rightarrow> real \<Rightarrow> nat \<Rightarrow> NarrationSegmentConfig list \<Rightarrow>
   NarrationSegmentConfig \<Rightarrow> NarrationSegmentConfig list \<Rightarrow> NarrationSegmentConfig list \<Rightarrow>
   NarrationSegmentConfig list" where
  "mergeLoop ids gapThreshold k merged first others [] =
     merged @ [collapseGroup (ids k) first others]"
| "mergeLoop ids gapThreshold k merged first others (current # rest) =
     (let prev = last (first # others);
          gap = seg_startTime current - seg_endTime prev
      in if gap \<le> gapThreshold
         then mergeLoop ids gapThreshold k merged first (others @ [current]) rest
         else mergeLoop ids gapThreshold (if others = [] then k else k + 1)
                (merged @ [collapseGroup (ids k) first others]) current [] rest)"

definition mergeAdjacentSegments ::
  "(nat \<Rightarrow> jsstring) \<Rightarrow> NarrationSegmentConfig list \<Rightarrow> real \<Rightarrow> NarrationSegmentConfig list" where
  "mergeAdjacentSegments ids segments gapThreshold =
     (if length segments = 0 then []
      else case jsSort segmentOrder segments of
             [] \<Rightarrow> []
           | first # rest \<Rightarrow> mergeLoop ids gapThreshold 0 [] first [] rest)"

text \<open>A text is non-blank when some code unit of it is not white space.\<close>

definition nonBlank :: "jsstring \<Rightarrow> bool" where
  "nonBlank text = list_ex (\<lambda>c. \<not> isWhiteSpace c) text"

text \<open>
  Concrete inputs: the text \<^verbatim>\<open>" ab \tc"\<close>, and two segments of which the second,
  \<^verbatim>\<open>"c"\<close> over [1, 2], lies inside the first, \<^verbatim>\<open>"a b"\<close> over [0, 10].
\<close>

definition sampleText :: jsstring where
  "sampleText = [0x20, 0x61, 0x62, 0x20, 0x09, 0x63]"

definition outerSegment :: NarrationSegmentConfig where
  "outerSegment = createNarrationSegment [0x41] [0x61, 0x20, 0x62] 0 10 None"

definition innerSegment :: NarrationSegmentConfig where
  "innerSegment = createNarrationSegment [0x42] [0x63] 1 1 (Some [0x75])"

definition sampleIds :: "nat \<Rightarrow> jsstring" where
  "sampleIds k = [0x6D]"

section \<open>Properties of the engine-state transitions\<close>

text \<open>
  C1, as stated, at a concrete input: a playing state at 1000 of 10000 ms, advanced by
  9500 ms, reaches the end and stops with status ready; seeking to 500 afterwards keeps
  that, while seeking the original state to 500 leaves it playing. The two results
  differ, so advance followed by seek is not seek alone.
\<close>

theorem C1_advance_then_seek_counterexample:
  "(0::real) \<le> 9500 \<and> (0::real) \<le> 500 \<and> 500 \<le> duration playingAt1000 \<and>
   seekEngine (advanceEngineState playingAt1000 9500) 500 \<noteq> seekEngine playingAt1000 500"
  by (simp add: playingAt1000_def advanceEngineState_def seekEngine_def clampTime_def)

text \<open>
  C1, amended: for deltaMs \<ge> 0 and t in [0, duration], advance followed by seek(t)
  yields the same engine state as seek(t) alone, unless the advance reaches the end of
  the timeline (the state is playing and currentTime + deltaMs * playbackRate \<ge>
  duration); in that case the result is that of seek(t) alone with isPlaying false and
  status ready. The fields currentTime, duration and playbackRate agree in both cases.
\<close>

theorem C1_advance_then_seek:
  assumes "0 \<le> deltaMs" and "0 \<le> t" and "t \<le> duration s"
  shows "seekEngine (advanceEngineState s deltaMs) t =
           (if advanceCompletes s deltaMs
            then (seekEngine s t)\<lparr>isPlaying := False, status := Ready\<rparr>
            else seekEngine s t)"
  by (simp add: advanceEngineState_def seekEngine_def advanceCompletes_def Let_def)

theorem C1_advance_then_seek_witness:
  "seekEngine (advanceEngineState playingAt1000 9500) 500 =
     \<lparr>isPlaying = False, currentTime = 500, duration = 10000, playbackRate = 1,
      status = Ready\<rparr> \<and>
   seekEngine (advanceEngineState playingAt1000 100) 500 = seekEngine playingAt1000 500"
  using C1_advance_then_seek [of 9500 500 playingAt1000]
    C1_advance_then_seek [of 100 500 playingAt1000]
  by (simp add: playingAt1000_def advanceCompletes_def seekEngine_def clampTime_def)

text \<open>
  C2: the initial engine state satisfies "isPlaying iff status = playing", and each of
  the seven pure transition functions maps a state that satisfies it to a state that
  satisfies it.
\<close>

theorem C2_playing_invariant:
  "playingAgrees createInitialEngineState \<and>
   (playingAgrees s \<longrightarrow>
      playingAgrees (advanceEngineState s deltaMs) \<and>
      playingAgrees (pauseEngine s) \<and>
      playingAgrees (resumeEngine s) \<and>
      playingAgrees (seekEngine s t) \<and>
      playingAgrees (setPlaybackRate s r) \<and>
      playingAgrees (setEngineStatus s st) \<and>
      playingAgrees (setEngineDuration s d))"
  by (auto simp add: playingAgrees_def createInitialEngineState_def advanceEngineState_def
      pauseEngine_def resumeEngine_def seekEngine_def setPlaybackRate_def
      setEngineStatus_def setEngineDuration_def Let_def)

theorem C2_playing_invariant_witness:
  "playingAgrees playingAt1000 \<and>
   playingAgrees (advanceEngineState playingAt1000 9500) \<and>
   playingAgrees (pauseEngine playingAt1000) \<and>
   playingAgrees (resumeEngine playingAt1000) \<and>
   playingAgrees (seekEngine playingAt1000 500) \<and>
   playingAgrees (setPlaybackRate playingAt1000 2) \<and>
   playingAgrees (setEngineStatus playingAt1000 Loading) \<and>
   playingAgrees (setEngineDuration playingAt1000 20000)"
proof -
  have h: "playingAgrees playingAt1000"
    by (simp add: playingAgrees_def playingAt1000_def)
  show ?thesis
    using h C2_playing_invariant [of playingAt1000 9500 500 2 Loading 20000] by simp
qed

text \<open>
  C3, as stated, at a concrete input: the playing state at 1000 ms advanced by
  -3000 ms has the sum 1000 + (-3000) * 1 = -2000, which is below the duration, and the
  resulting currentTime is 0, not the sum.
\<close>

theorem C3_advance_counterexample:
  "isPlaying playingAt1000 \<and> status playingAt1000 = Playing \<and>
   currentTime playingAt1000 + (- 3000) * playbackRate playingAt1000 < duration playingAt1000 \<and>
   currentTime (advanceEngineState playingAt1000 (- 3000)) \<noteq>
     currentTime playingAt1000 + (- 3000) * playbackRate playingAt1000"
  by (simp add: playingAt1000_def advanceEngineState_def)

text \<open>
  C3, amended: advanceEngineState(s, deltaMs) returns s unchanged unless s.isPlaying and
  s.status = playing; otherwise, when currentTime + deltaMs * playbackRate reaches or
  exceeds the duration, the result is s with currentTime = duration, isPlaying = false
  and status = ready; and below the duration the result is s with
  currentTime = max(0, s.currentTime + deltaMs * s.playbackRate), which is the sum itself
  whenever the sum is not negative.
\<close>

theorem C3_advance:
  "(\<not> (isPlaying s \<and> status s = Playing) \<longrightarrow> advanceEngineState s deltaMs = s) \<and>
   (isPlaying s \<and> status s = Playing \<and>
    currentTime s + deltaMs * playbackRate s \<ge> duration s \<longrightarrow>
      advanceEngineState s deltaMs =
        s\<lparr>currentTime := duration s, isPlaying := False, status := Ready\<rparr>) \<and>
   (isPlaying s \<and> status s = Playing \<and>
    currentTime s + deltaMs * playbackRate s < duration s \<longrightarrow>
      advanceEngineState s deltaMs =
        s\<lparr>currentTime := max 0 (currentTime s + deltaMs * playbackRate s)\<rparr> \<and>
      (0 \<le> currentTime s + deltaMs * playbackRate s \<longrightarrow>
         currentTime (advanceEngineState s deltaMs) =
           currentTime s + deltaMs * playbackRate s))"
  by (simp add: advanceEngineState_def Let_def)

theorem C3_advance_witness:
  "advanceEngineState (pauseEngine playingAt1000) 16 = pauseEngine playingAt1000 \<and>
   advanceEngineState playingAt1000 9500 =
     \<lparr>isPlaying = False, currentTime = 10000, duration = 10000, playbackRate = 1,
      status = Ready\<rparr> \<and>
   advanceEngineState playingAt1000 16 =
     \<lparr>isPlaying = True, currentTime = 1016, duration = 10000, playbackRate = 1,
      status = Playing\<rparr> \<and>
   advanceEngineState playingAt1000 (- 3000) =
     \<lparr>isPlaying = True, currentTime = 0, duration = 10000, playbackRate = 1,
      status = Playing\<rparr>"
  using C3_advance [of "pauseEngine playingAt1000" 16] C3_advance [of playingAt1000 9500]
    C3_advance [of playingAt1000 16] C3_advance [of playingAt1000 "- 3000"]
  by (simp add: playingAt1000_def pauseEngine_def)

text \<open>
  C4: setPlaybackRate(s, r) yields a playbackRate in [0.25, 4.0]; it is r itself when r
  lies in that range, 0.25 when r is below it and 4.0 when r is above it; the other
  four fields are those of s.
\<close>

theorem C4_setPlaybackRate:
  "0.25 \<le> playbackRate (setPlaybackRate s r) \<and>
   playbackRate (setPlaybackRate s r) \<le> 4.0 \<and>
   (0.25 \<le> r \<and> r \<le> 4.0 \<longrightarrow> playbackRate (setPlaybackRate s r) = r) \<and>
   (r < 0.25 \<longrightarrow> playbackRate (setPlaybackRate s r) = 0.25) \<and>
   (4.0 < r \<longrightarrow> playbackRate (setPlaybackRate s r) = 4.0) \<and>
   isPlaying (setPlaybackRate s r) = isPlaying s \<and>
   currentTime (setPlaybackRate s r) = currentTime s \<and>
   duration (setPlaybackRate s r) = duration s \<and>
   status (setPlaybackRate s r) = status s"
  by (simp add: setPlaybackRate_def clampTime_def MIN_PLAYBACK_RATE_def
      MAX_PLAYBACK_RATE_def min_def max_def)

theorem C4_setPlaybackRate_witness:
  "playbackRate (setPlaybackRate playingAt1000 1.5) = 1.5 \<and>
   playbackRate (setPlaybackRate playingAt1000 0.1) = 0.25 \<and>
   playbackRate (setPlaybackRate playingAt1000 16) = 4.0"
  using C4_setPlaybackRate [of playingAt1000 "1.5"] C4_setPlaybackRate [of playingAt1000 "0.1"]
    C4_setPlaybackRate [of playingAt1000 16]
  by simp

section \<open>Sorting, validation and merging of tracks\<close>

lemma eventOrder_le_iff: "eventOrder a b \<le> 0 \<longleftrightarrow> eventKey a \<le> eventKey b"
  by (auto simp add: eventOrder_def eventKey_def less_eq_prod_def)

lemma notAfter_iff: "notAfter a b \<longleftrightarrow> eventKey a \<le> eventKey b"
  by (auto simp add: notAfter_def eventKey_def less_eq_prod_def)

lemma insertSorted_eventOrder: "insertSorted eventOrder v ws = insort_key eventKey v ws"
  by (induction ws) (simp_all add: eventOrder_le_iff)

text \<open>
  On events, the sort of the runtime is the stable insertion sort of the library on the
  key (startTime, endTime) in lexicographic order.
\<close>

lemma sortTimelineEvents_sort_key: "sortTimelineEvents events = sort_key eventKey events"
  by (induction events)
    (simp_all add: sortTimelineEvents_def jsSort_def insertSorted_eventOrder)

lemma sorted_sortTimelineEvents: "sorted_wrt notAfter (sortTimelineEvents events)"
proof -
  have "sorted (map eventKey (sortTimelineEvents events))"
    by (simp add: sortTimelineEvents_sort_key)
  then show ?thesis
    by (simp add: sorted_map notAfter_iff [abs_def])
qed

lemma mset_sortTimelineEvents: "mset (sortTimelineEvents events) = mset events"
  by (simp add: sortTimelineEvents_sort_key)

lemma length_sortTimelineEvents: "length (sortTimelineEvents events) = length events"
  by (simp add: sortTimelineEvents_sort_key)

text \<open>
  C5: on a single track holding exactly two events, the first over [0, 1000), in either
  order: when the second is over [1000, 2000) validateTimeline returns no entry; when it
  is over [900, 2000) it returns exactly one entry, the overlap error (by 100 ms) on the
  second event; when it is over [10000, 11000) it returns exactly one entry, the gap
  warning (of 9000 ms) on the second event.
\<close>

theorem C5_validateTimeline_scenarios:
  assumes "ev_startTime e1 = 0" and "ev_endTime e1 = 1000"
    and "trk_events t = [e1, e2] \<or> trk_events t = [e2, e1]"
  shows "(ev_startTime e2 = 1000 \<and> ev_endTime e2 = 2000 \<longrightarrow> validateTimeline [t] = []) \<and>
         (ev_startTime e2 = 900 \<and> ev_endTime e2 = 2000 \<longrightarrow>
            validateTimeline [t] =
              [\<lparr>err_eventId = ev_id e2, err_message = OverlapsPrevious (ev_id e1) 100,
                err_severity = SeverityError\<rparr>]) \<and>
         (ev_startTime e2 = 10000 \<and> ev_endTime e2 = 11000 \<longrightarrow>
            validateTimeline [t] =
              [\<lparr>err_eventId = ev_id e2, err_message = LargeGap 9000,
                err_severity = SeverityWarning\<rparr>])"
  using assms
  by (auto simp add: validateTimeline_def validateTrack_def sortTimelineEvents_def jsSort_def
      eventOrder_def OVERLAP_TOLERANCE_MS_def GAP_WARNING_THRESHOLD_MS_def)

theorem C5_validateTimeline_scenarios_witness:
  "validateTimeline [cursorTrack [eventA, eventB]] = [] \<and>
   validateTimeline [cursorTrack [eventA, eventC]] =
     [\<lparr>err_eventId = [0x63], err_message = OverlapsPrevious [0x61] 100,
       err_severity = SeverityError\<rparr>] \<and>
   validateTimeline [cursorTrack [eventD, eventA]] =
     [\<lparr>err_eventId = [0x64], err_message = LargeGap 9000, err_severity = SeverityWarning\<rparr>]"
  using C5_validateTimeline_scenarios [of eventA "cursorTrack [eventA, eventB]" eventB]
    C5_validateTimeline_scenarios [of eventA "cursorTrack [eventA, eventC]" eventC]
    C5_validateTimeline_scenarios [of eventA "cursorTrack [eventD, eventA]" eventD]
  by (simp add: cursorTrack_def createTimelineTrack_def eventA_def eventB_def eventC_def
      eventD_def createTimelineEvent_def)

text \<open>
  What mergeTimelineTracks does: for tracks of one type it returns a track whose events
  are the concatenation of both event lists sorted ascending by startTime, ties broken
  by endTime (a sorted rearrangement of all the events of both), whose event count is
  the sum of both counts, and whose locked and visible flags are those of the first
  track; for tracks of different types it throws.
\<close>

lemma mergeTimelineTracks_result:
  "(trk_type a = trk_type b \<longrightarrow>
      (\<exists>m. mergeTimelineTracks newId a b = Inr m \<and>
           trk_events m = sortTimelineEvents (trk_events a @ trk_events b) \<and>
           sorted_wrt notAfter (trk_events m) \<and>
           mset (trk_events m) = mset (trk_events a) + mset (trk_events b) \<and>
           length (trk_events m) = length (trk_events a) + length (trk_events b) \<and>
           trk_locked m = trk_locked a \<and> trk_visible m = trk_visible a \<and>
           trk_type m = trk_type a \<and> trk_id m = newId)) \<and>
   (trk_type a \<noteq> trk_type b \<longrightarrow>
      mergeTimelineTracks newId a b = Inl (MergeTypeMismatch (trk_type a) (trk_type b)))"
  by (simp add: mergeTimelineTracks_def sorted_sortTimelineEvents mset_sortTimelineEvents
      length_sortTimelineEvents)

lemma mergeTimelineTracks_examples:
  "mergeTimelineTracks [0x6E] (cursorTrack [eventD, eventA]) (cursorTrack [eventC]) =
     Inr \<lparr>trk_id = [0x6E], trk_type = Cursor, trk_events = [eventA, eventC, eventD],
          trk_locked = False, trk_visible = True\<rparr> \<and>
   mergeTimelineTracks [0x6E] (cursorTrack [eventA]) (drawingTrack [eventB]) =
     Inl (MergeTypeMismatch Cursor Drawing)"
  by (simp add: cursorTrack_def drawingTrack_def createTimelineTrack_def eventA_def eventB_def
      eventC_def eventD_def createTimelineEvent_def mergeTimelineTracks_def
      sortTimelineEvents_def jsSort_def eventOrder_def)

lemma calculateTimelineDuration_within_limit:
  "length events \<le> argLimit \<Longrightarrow>
     calculateTimelineDuration argLimit events =
       Inr (if events = [] then 0 else Max (set (map ev_endTime events)))"
proof (cases events)
  case Nil
  then show ?thesis
    by (simp add: calculateTimelineDuration_def)
next
  case (Cons e es)
  assume "length events \<le> argLimit"
  moreover have "fold max (map ev_endTime es) (ev_endTime e) =
      Max (set (map ev_endTime (e # es)))"
    by (simp only: list.map Max.set_eq_fold)
  ultimately show ?thesis
    using Cons by (simp add: calculateTimelineDuration_def)
qed

text \<open>
  C7 at a concrete input: mergeTimelineTracks is not the only operation of the timeline
  module that throws. Whatever number of arguments the engine accepts in one call, on a
  list with one event more calculateTimelineDuration throws a RangeError, and so do
  buildTimeline on a track holding that list and clampToTimeline on that list; no
  track is merged in any of the three calls.
\<close>

theorem C7_calculateTimelineDuration_throws:
  "calculateTimelineDuration argLimit (replicate (Suc argLimit) eventA) = Inl RangeError \<and>
   buildTimeline argLimit [cursorTrack (replicate (Suc argLimit) eventA)] = Inl RangeError \<and>
   clampToTimeline argLimit (replicate (Suc argLimit) eventA) 500 = Inl RangeError"
  by (simp add: calculateTimelineDuration_def buildTimeline_def clampToTimeline_def
      cursorTrack_def createTimelineTrack_def)

section \<open>Splitting a cubic curve\<close>

lemma clamp01_unit: "0 \<le> v \<Longrightarrow> v \<le> 1 \<Longrightarrow> clamp01 v = v"
  by (simp add: clamp01_def)

lemma unit_product:
  assumes "0 \<le> (t::real)" and "t \<le> 1" and "0 \<le> s" and "s \<le> 1"
  shows "0 \<le> t * s \<and> t * s \<le> 1"
  using assms by (simp add: mult_le_one)

lemma unit_remainder:
  assumes "0 \<le> (t::real)" and "t \<le> 1" and "0 \<le> s" and "s \<le> 1"
  shows "0 \<le> t + (1 - t) * s \<and> t + (1 - t) * s \<le> 1"
proof -
  have "0 \<le> (1 - t) * s"
    using assms by simp
  moreover have "(1 - t) * s \<le> (1 - t) * 1"
    using assms by (intro mult_left_mono) simp_all
  ultimately show ?thesis
    using assms by simp
qed

lemma splitBezierAt_left:
  assumes "0 \<le> t" and "t \<le> 1" and "0 \<le> s" and "s \<le> 1"
  shows "evaluateBezierPoint (fst (splitBezierAt c t)) s = evaluateBezierPoint c (t * s)"
proof -
  have ts: "clamp01 (t * s) = t * s"
    using unit_product [OF assms] by (simp add: clamp01_unit)
  show ?thesis
    unfolding evaluateBezierPoint_def splitBezierAt_def Let_def ts
      clamp01_unit [OF assms(1,2)] clamp01_unit [OF assms(3,4)]
    by (simp add: lerpPoint_def) algebra
qed

lemma splitBezierAt_right:
  assumes "0 \<le> t" and "t \<le> 1" and "0 \<le> s" and "s \<le> 1"
  shows "evaluateBezierPoint (snd (splitBezierAt c t)) s =
           evaluateBezierPoint c (t + (1 - t) * s)"
proof -
  have ts: "clamp01 (t + (1 - t) * s) = t + (1 - t) * s"
    using unit_remainder [OF assms] by (simp add: clamp01_unit)
  show ?thesis
    unfolding evaluateBezierPoint_def splitBezierAt_def Let_def ts
      clamp01_unit [OF assms(1,2)] clamp01_unit [OF assms(3,4)]
    by (simp add: lerpPoint_def) algebra
qed

text \<open>
  C8: for t in [0, 1], the two curves (left, right) of splitBezierAt(c, t) reproduce c:
  for every s in [0, 1], evaluateBezierPoint(left, s) = evaluateBezierPoint(c, t * s) and
  evaluateBezierPoint(right, s) = evaluateBezierPoint(c, t + (1 - t) * s), over the reals;
  and left.start = c.start, right.end = c.end, left.end = right.start.
\<close>

theorem C8_splitBezierAt:
  assumes "0 \<le> t" and "t \<le> 1" and "0 \<le> s" and "s \<le> 1"
  shows "evaluateBezierPoint (fst (splitBezierAt c t)) s = evaluateBezierPoint c (t * s) \<and>
         evaluateBezierPoint (snd (splitBezierAt c t)) s =
           evaluateBezierPoint c (t + (1 - t) * s) \<and>
         bz_start (fst (splitBezierAt c t)) = bz_start c \<and>
         bz_end (snd (splitBezierAt c t)) = bz_end c \<and>
         bz_end (fst (splitBezierAt c t)) = bz_start (snd (splitBezierAt c t))"
  using splitBezierAt_left [OF assms] splitBezierAt_right [OF assms]
  by (simp add: splitBezierAt_def Let_def)

theorem C8_splitBezierAt_witness:
  "evaluateBezierPoint (fst (splitBezierAt sampleCurve (1/2))) (1/2) =
     evaluateBezierPoint sampleCurve (1/4) \<and>
   evaluateBezierPoint (snd (splitBezierAt sampleCurve (1/2))) (1/2) =
     evaluateBezierPoint sampleCurve (3/4) \<and>
   bz_end (fst (splitBezierAt sampleCurve (1/2))) = \<lparr>px = 4, py = 6\<rparr> \<and>
   bz_start (snd (splitBezierAt sampleCurve (1/2))) = \<lparr>px = 4, py = 6\<rparr>"
  using C8_splitBezierAt [of "1/2" "1/2" sampleCurve]
  by (simp add: splitBezierAt_def sampleCurve_def lerpPoint_def clamp01_def Let_def)

section \<open>Drawing a stroke up to a fraction of its length\<close>

lemma pathLengthLoop_acc: "pathLengthLoop len prev rest = len + pathLengthLoop 0 prev rest"
proof (induction rest arbitrary: len prev)
  case Nil
  show ?case by simp
next
  case (Cons cur rest)
  have "pathLengthLoop len prev (cur # rest) = pathLengthLoop (len + distance prev cur) cur rest"
    by simp
  also have "\<dots> = len + distance prev cur + pathLengthLoop 0 cur rest"
    by (rule Cons.IH)
  also have "\<dots> = len + pathLengthLoop (0 + distance prev cur) cur rest"
    using Cons.IH [of "0 + distance prev cur" cur] by simp
  finally show ?case by simp
qed

lemma calculatePathLength_Cons: "calculatePathLength (p # rest) = pathLengthLoop 0 p rest"
  by (cases rest) (simp_all add: calculatePathLength_def)

text \<open>The point at parameter \<open>t \<ge> 0\<close> of a segment lies \<open>t\<close> segment lengths from its start.\<close>

lemma distance_on_segment:
  assumes "0 \<le> t"
  shows "distance prev \<lparr>px = px prev + (px cur - px prev) * t,
                         py = py prev + (py cur - py prev) * t\<rparr> = t * distance prev cur"
proof -
  let ?dx = "px cur - px prev" and ?dy = "py cur - py prev"
  have "(?dx * t) * (?dx * t) + (?dy * t) * (?dy * t) = t\<^sup>2 * (?dx * ?dx + ?dy * ?dy)"
    by (simp add: power2_eq_square algebra_simps)
  then have "sqrt ((?dx * t) * (?dx * t) + (?dy * t) * (?dy * t)) =
      \<bar>t\<bar> * sqrt (?dx * ?dx + ?dy * ?dy)"
    by (simp add: real_sqrt_mult)
  then show ?thesis
    using assms by (simp add: distance_def Let_def)
qed

lemma strokeProgressLoop_length:
  assumes "accumulated < targetLength"
    and "targetLength \<le> accumulated + pathLengthLoop 0 prev rest"
  shows "pathLengthLoop 0 prev (strokeProgressLoop targetLength accumulated prev rest) =
           targetLength - accumulated"
  using assms
proof (induction rest arbitrary: accumulated prev)
  case Nil
  then show ?case by simp
next
  case (Cons cur rest)
  let ?seg = "distance prev cur"
  show ?case
  proof (cases "accumulated + ?seg \<ge> targetLength")
    case True
    with Cons.prems(1) have pos: "0 < ?seg"
      by simp
    have t0: "0 \<le> (targetLength - accumulated) / ?seg"
      using Cons.prems(1) pos by simp
    show ?thesis
      using True pos distance_on_segment [OF t0, of prev cur] by (simp add: Let_def)
  next
    case False
    then have lt: "accumulated + ?seg < targetLength"
      by simp
    have le: "targetLength \<le> accumulated + ?seg + pathLengthLoop 0 cur rest"
      using Cons.prems(2) pathLengthLoop_acc [of ?seg cur rest] by simp
    have "pathLengthLoop 0 cur (strokeProgressLoop targetLength (accumulated + ?seg) cur rest) =
        targetLength - (accumulated + ?seg)"
      by (rule Cons.IH [OF lt le])
    then show ?thesis
      using False
        pathLengthLoop_acc [of ?seg cur
          "strokeProgressLoop targetLength (accumulated + ?seg) cur rest"]
      by (simp add: Let_def)
  qed
qed

lemma strokeProgressLoop_shape:
  assumes "accumulated < targetLength"
    and "targetLength \<le> accumulated + pathLengthLoop 0 prev rest"
  shows "\<exists>k t. k < length rest \<and> 0 < t \<and> t \<le> 1 \<and>
           strokeProgressLoop targetLength accumulated prev rest =
             take k rest @ [lerpPoint ((prev # rest) ! k) (rest ! k) t]"
  using assms
proof (induction rest arbitrary: accumulated prev)
  case Nil
  then show ?case by simp
next
  case (Cons cur rest)
  let ?seg = "distance prev cur"
  show ?case
  proof (cases "accumulated + ?seg \<ge> targetLength")
    case True
    with Cons.prems(1) have pos: "0 < ?seg"
      by simp
    let ?t = "(targetLength - accumulated) / ?seg"
    have "0 < ?t" and "?t \<le> 1"
      using Cons.prems(1) pos True by simp_all
    moreover have "strokeProgressLoop targetLength accumulated prev (cur # rest) =
        take 0 (cur # rest) @ [lerpPoint ((prev # cur # rest) ! 0) ((cur # rest) ! 0) ?t]"
      using True pos by (simp add: Let_def lerpPoint_def)
    ultimately show ?thesis
      by (intro exI [of _ 0] exI [of _ ?t]) simp
  next
    case False
    then have lt: "accumulated + ?seg < targetLength"
      by simp
    have le: "targetLength \<le> accumulated + ?seg + pathLengthLoop 0 cur rest"
      using Cons.prems(2) pathLengthLoop_acc [of ?seg cur rest] by simp
    from Cons.IH [OF lt le] obtain k t where kt: "k < length rest" "0 < t" "t \<le> 1"
      "strokeProgressLoop targetLength (accumulated + ?seg) cur rest =
         take k rest @ [lerpPoint ((cur # rest) ! k) (rest ! k) t]"
      by blast
    have "strokeProgressLoop targetLength accumulated prev (cur # rest) =
        take (Suc k) (cur # rest) @
          [lerpPoint ((prev # cur # rest) ! Suc k) ((cur # rest) ! Suc k) t]"
      using False kt(4) by (simp add: Let_def)
    then show ?thesis
      using kt(1-3) by (intro exI [of _ "Suc k"] exI [of _ t]) simp
  qed
qed

text \<open>
  C9: for a stroke with at least two points and positive total arc length, and a
  progress strictly between 0 and 1, getStrokeProgress returns the first k points of the
  stroke (0 < k < number of points) followed by one point interpolated between point
  k - 1 and point k, and the arc length of what it returns is progress times the arc
  length of the whole stroke, over the reals.
\<close>

theorem C9_getStrokeProgress:
  assumes "length (stk_points stroke) \<ge> 2"
    and "0 < calculatePathLength (stk_points stroke)"
    and "0 < progress" and "progress < 1"
  shows "(\<exists>k t. 0 < k \<and> k < length (stk_points stroke) \<and> 0 < t \<and> t \<le> 1 \<and>
            getStrokeProgress stroke progress =
              take k (stk_points stroke) @
              [lerpPoint (stk_points stroke ! (k - 1)) (stk_points stroke ! k) t]) \<and>
         calculatePathLength (getStrokeProgress stroke progress) =
           progress * calculatePathLength (stk_points stroke)"
proof -
  obtain p rest where pts: "stk_points stroke = p # rest"
    using assms(1) by (cases "stk_points stroke") simp_all
  let ?whole = "pathLengthLoop 0 p rest"
  let ?target = "?whole * progress"
  have whole: "calculatePathLength (stk_points stroke) = ?whole"
    by (simp add: pts calculatePathLength_Cons)
  have pos: "0 < ?whole"
    using assms(2) whole by simp
  have lo: "0 < ?target"
    using pos assms(3) by simp
  have hi: "?target \<le> 0 + ?whole"
    using pos assms(4) by simp
  have res: "getStrokeProgress stroke progress = p # strokeProgressLoop ?target 0 p rest"
    using assms(3,4)
    by (simp add: getStrokeProgress_def pts Let_def clamp01_def calculatePathLength_Cons)
  from strokeProgressLoop_shape [OF lo hi] obtain k t
    where kt: "k < length rest" "0 < t" "t \<le> 1"
      "strokeProgressLoop ?target 0 p rest =
         take k rest @ [lerpPoint ((p # rest) ! k) (rest ! k) t]"
    by blast
  have shape: "getStrokeProgress stroke progress =
      take (Suc k) (stk_points stroke) @
        [lerpPoint (stk_points stroke ! (Suc k - 1)) (stk_points stroke ! Suc k) t]"
    by (simp add: res kt(4) pts)
  have len: "calculatePathLength (getStrokeProgress stroke progress) = ?target"
    using strokeProgressLoop_length [OF lo hi] by (simp add: res calculatePathLength_Cons)
  have "\<exists>k t. 0 < k \<and> k < length (stk_points stroke) \<and> 0 < t \<and> t \<le> 1 \<and>
            getStrokeProgress stroke progress =
              take k (stk_points stroke) @
              [lerpPoint (stk_points stroke ! (k - 1)) (stk_points stroke ! k) t]"
    using shape kt(1-3) by (intro exI [of _ "Suc k"] exI [of _ t]) (simp add: pts)
  then show ?thesis
    using len whole by (simp add: mult.commute)
qed

lemma sqrt_100: "sqrt 100 = 10"
  using real_sqrt_abs [of 10] by simp

theorem C9_getStrokeProgress_witness:
  "getStrokeProgress cornerStroke (1/2) =
     [\<lparr>px = 0, py = 0\<rparr>, \<lparr>px = 10, py = 0\<rparr>, \<lparr>px = 10, py = 5\<rparr>] \<and>
   calculatePathLength (stk_points cornerStroke) = 30 \<and>
   calculatePathLength (getStrokeProgress cornerStroke (1/2)) = 15"
  using C9_getStrokeProgress [of cornerStroke "1/2"]
  by (simp add: cornerStroke_def getStrokeProgress_def calculatePathLength_def distance_def
      clamp01_def sqrt_100)

section \<open>Word timings\<close>

lemma dropWhile_keeps:
  "c \<in> set cs \<Longrightarrow> \<not> isWhiteSpace c \<Longrightarrow> c \<in> set (dropWhile isWhiteSpace cs)"
  by (induction cs) auto

lemma splitWhiteSpace_word:
  "piece \<noteq> [] \<or> (\<exists>c\<in>set cs. \<not> isWhiteSpace c) \<Longrightarrow>
     \<exists>w\<in>set (splitWhiteSpace piece cs). w \<noteq> []"
proof (induction piece cs rule: splitWhiteSpace.induct)
  case (1 piece)
  then show ?case by simp
next
  case (2 piece c cs)
  show ?case
  proof (cases "isWhiteSpace c")
    case True
    show ?thesis
    proof (cases "piece = []")
      case False
      then show ?thesis
        using True by simp
    next
      case empty: True
      with "2.prems" True obtain d where d: "d \<in> set cs" "\<not> isWhiteSpace d"
        by auto
      have "d \<in> set (dropWhile isWhiteSpace cs)"
        by (rule dropWhile_keeps [OF d])
      with d(2) have "\<exists>c\<in>set (dropWhile isWhiteSpace cs). \<not> isWhiteSpace c" ..
      then have "\<exists>w\<in>set (splitWhiteSpace [] (dropWhile isWhiteSpace cs)). w \<noteq> []"
        using "2.IH"(1) [OF True] by blast
      then show ?thesis
        using True by simp
    qed
  next
    case False
    then show ?thesis
      using "2.IH"(2) by simp
  qed
qed

lemma words_nonempty:
  assumes "nonBlank text"
  shows "filter (\<lambda>w. length w > 0) (splitWhiteSpace [] text) \<noteq> []"
proof -
  from assms have "\<exists>c\<in>set text. \<not> isWhiteSpace c"
    by (simp add: nonBlank_def list_ex_iff)
  then obtain w where "w \<in> set (splitWhiteSpace [] text)" and "w \<noteq> []"
    using splitWhiteSpace_word [of "[]" "text"] by blast
  then show ?thesis
    by (auto simp add: filter_empty_conv)
qed

lemma foldl_lengths: "foldl (\<lambda>sum w. sum + length w) a ws = a + sum_list (map length ws)"
  by (induction ws arbitrary: a) simp_all

lemma totalChars_pos:
  assumes "ws \<noteq> []" and "\<forall>w\<in>set ws. w \<noteq> []"
  shows "0 < foldl (\<lambda>sum w. sum + length w) 0 ws"
  using assms by (cases ws) (simp_all add: foldl_lengths)

lemma whole_share: "0 < (n::nat) \<Longrightarrow> s + (e - s) * (real n / real n) = (e::real)"
  by simp

lemma wordTimingLoop_nonempty:
  "ws \<noteq> [] \<Longrightarrow> wordTimingLoop n tc td e i cursor ws \<noteq> []"
  by (cases ws) (simp_all add: Let_def)

lemma wordTimingLoop_length: "length (wordTimingLoop n tc td e i cursor ws) = length ws"
  by (induction ws arbitrary: i cursor) (simp_all add: Let_def)

lemma wordTimingLoop_hd:
  "ws \<noteq> [] \<Longrightarrow> wt_startTime (hd (wordTimingLoop n tc td e i cursor ws)) = cursor"
  by (cases ws) (simp_all add: Let_def)

lemma wordTimingLoop_word: "map wt_word (wordTimingLoop n tc td e i cursor ws) = ws"
  by (induction ws arbitrary: i cursor) (simp_all add: Let_def)

lemma wordTimingLoop_index:
  "j < length ws \<Longrightarrow> wt_index (wordTimingLoop n tc td e i cursor ws ! j) = i + j"
proof (induction ws arbitrary: i cursor j)
  case Nil
  then show ?case by simp
next
  case (Cons w ws)
  then show ?case
    by (cases j) (simp_all add: Let_def)
qed

lemma wordTimingLoop_chain:
  "Suc j < length ws \<Longrightarrow>
     wt_startTime (wordTimingLoop n tc td e i cursor ws ! Suc j) =
     wt_endTime (wordTimingLoop n tc td e i cursor ws ! j)"
proof (induction ws arbitrary: i cursor j)
  case Nil
  then show ?case by simp
next
  case (Cons w ws)
  show ?case
  proof (cases j)
    case 0
    with Cons.prems obtain v vs where "ws = v # vs"
      by (cases ws) simp_all
    then show ?thesis
      using 0 by (simp add: Let_def)
  next
    case (Suc m)
    then show ?thesis
      using Cons.IH [of m] Cons.prems by (simp add: Let_def)
  qed
qed

lemma wordTimingLoop_last:
  "ws \<noteq> [] \<Longrightarrow> i + length ws = n \<Longrightarrow>
     wt_endTime (last (wordTimingLoop n tc td e i cursor ws)) = e"
proof (induction ws arbitrary: i cursor)
  case Nil
  then show ?case by simp
next
  case (Cons w ws)
  show ?case
  proof (cases ws)
    case Nil
    then show ?thesis
      using Cons.prems by (auto simp add: Let_def)
  next
    case (Cons v vs)
    then have "wordTimingLoop n tc td e (i + 1)
        (if i = n - 1 then e else cursor + td * (real (length w) / real tc)) ws \<noteq> []"
      by (simp add: Let_def)
    then show ?thesis
      using Cons.IH [of "i + 1"] Cons.prems Cons by (simp add: Let_def)
  qed
qed

text \<open>
  While the cursor plus the share of the words still to come is the end time, no word
  ends before it starts.
\<close>

lemma wordTimingLoop_ordered:
  assumes "0 < td" and "0 < tc"
    and "i + length ws = n"
    and "cursor + td * (real (sum_list (map length ws)) / real tc) = e"
    and "j < length ws"
  shows "wt_startTime (wordTimingLoop n tc td e i cursor ws ! j) \<le>
         wt_endTime (wordTimingLoop n tc td e i cursor ws ! j)"
  using assms(3-5)
proof (induction ws arbitrary: i cursor j)
  case Nil
  then show ?case by simp
next
  case (Cons w ws)
  let ?d = "td * (real (length w) / real tc)"
  have d0: "0 \<le> ?d"
    using assms(1,2) by simp
  have rest0: "0 \<le> td * (real (sum_list (map length ws)) / real tc)"
    using assms(1,2) by simp
  have parts: "cursor + ?d + td * (real (sum_list (map length ws)) / real tc) = e"
    using Cons.prems(2) by (simp add: algebra_simps add_divide_distrib)
  show ?case
  proof (cases j)
    case 0
    have "cursor \<le> e"
      using parts d0 rest0 by linarith
    then show ?thesis
      using 0 d0 by (simp add: Let_def)
  next
    case (Suc m)
    with Cons.prems have ne: "ws \<noteq> []" and m: "m < length ws"
      by auto
    then have "i \<noteq> n - 1"
      using Cons.prems(1) by (cases ws) auto
    then show ?thesis
      using Cons.IH [of "i + 1" "cursor + ?d" m] Cons.prems(1) parts m Suc
      by (simp add: Let_def)
  qed
qed

lemma estimateWordTimings_unfold:
  assumes "ws = filter (\<lambda>w. length w > 0) (splitWhiteSpace [] text)"
    and "ws \<noteq> []" and "0 < foldl (\<lambda>sum w. sum + length w) 0 ws"
    and "startTime < endTime"
  shows "estimateWordTimings text startTime endTime =
    wordTimingLoop (length ws) (foldl (\<lambda>sum w. sum + length w) 0 ws)
      (endTime - startTime) endTime 0 startTime ws"
  unfolding estimateWordTimings_def Let_def assms(1) [symmetric]
  using assms(2-4) by simp

text \<open>
  C10: for a non-blank text and startTime < endTime, the word timings of
  estimateWordTimings are not empty; the first starts at startTime, each later one
  starts where the one before it ends, the last ends at endTime, the indices run from
  0 upwards, no word ends before it starts, and the words are the white-space
  separated pieces of the text in order.
\<close>

theorem C10_estimateWordTimings:
  assumes "nonBlank text" and "startTime < endTime"
  shows "estimateWordTimings text startTime endTime \<noteq> [] \<and>
         wt_startTime (hd (estimateWordTimings text startTime endTime)) = startTime \<and>
         (\<forall>j. Suc j < length (estimateWordTimings text startTime endTime) \<longrightarrow>
            wt_startTime (estimateWordTimings text startTime endTime ! Suc j) =
            wt_endTime (estimateWordTimings text startTime endTime ! j)) \<and>
         wt_endTime (last (estimateWordTimings text startTime endTime)) = endTime \<and>
         (\<forall>j < length (estimateWordTimings text startTime endTime).
            wt_index (estimateWordTimings text startTime endTime ! j) = j \<and>
            wt_startTime (estimateWordTimings text startTime endTime ! j) \<le>
              wt_endTime (estimateWordTimings text startTime endTime ! j)) \<and>
         map wt_word (estimateWordTimings text startTime endTime) =
           filter (\<lambda>w. length w > 0) (splitWhiteSpace [] text)"
proof -
  let ?words = "filter (\<lambda>w. length w > 0) (splitWhiteSpace [] text)"
  let ?tc = "foldl (\<lambda>sum w. sum + length w) 0 ?words"
  let ?td = "endTime - startTime"
  let ?r = "wordTimingLoop (length ?words) ?tc ?td endTime 0 startTime ?words"
  have ne: "?words \<noteq> []"
    by (rule words_nonempty [OF assms(1)])
  have tc: "0 < ?tc"
    by (rule totalChars_pos [OF ne]) simp
  have td: "0 < ?td"
    using assms(2) by simp
  have eq: "estimateWordTimings text startTime endTime = ?r"
    by (rule estimateWordTimings_unfold [OF refl ne tc assms(2)])
  have tcsum: "sum_list (map length ?words) = ?tc"
    by (simp only: foldl_lengths add_0)
  have full: "startTime + ?td * (real (sum_list (map length ?words)) / real ?tc) = endTime"
    unfolding tcsum by (rule whole_share [OF tc])
  have 1: "?r \<noteq> []"
    by (rule wordTimingLoop_nonempty [OF ne])
  have 2: "wt_startTime (hd ?r) = startTime"
    by (rule wordTimingLoop_hd [OF ne])
  have 3: "\<forall>j. Suc j < length ?r \<longrightarrow> wt_startTime (?r ! Suc j) = wt_endTime (?r ! j)"
    by (simp add: wordTimingLoop_length wordTimingLoop_chain)
  have 4: "wt_endTime (last ?r) = endTime"
    by (rule wordTimingLoop_last [OF ne]) simp
  have 5: "\<forall>j < length ?r. wt_index (?r ! j) = j \<and> wt_startTime (?r ! j) \<le> wt_endTime (?r ! j)"
  proof (intro allI impI conjI)
    fix j
    assume "j < length ?r"
    then have j: "j < length ?words"
      by (simp add: wordTimingLoop_length)
    show "wt_index (?r ! j) = j"
      using wordTimingLoop_index [OF j] by simp
    show "wt_startTime (?r ! j) \<le> wt_endTime (?r ! j)"
      by (rule wordTimingLoop_ordered [OF td tc _ full j]) simp
  qed
  have 6: "map wt_word ?r = ?words"
    by (rule wordTimingLoop_word)
  show ?thesis
    unfolding eq using 1 2 3 4 5 6 by blast
qed

theorem C10_estimateWordTimings_witness:
  "nonBlank sampleText \<and>
   estimateWordTimings sampleText 0 3 =
     [\<lparr>wt_word = [0x61, 0x62], wt_startTime = 0, wt_endTime = 2, wt_index = 0\<rparr>,
      \<lparr>wt_word = [0x63], wt_startTime = 2, wt_endTime = 3, wt_index = 1\<rparr>] \<and>
   wt_endTime (last (estimateWordTimings sampleText 0 3)) = 3"
  using C10_estimateWordTimings [of sampleText 0 3]
  by (simp add: nonBlank_def sampleText_def estimateWordTimings_def isWhiteSpace_def)

section \<open>Merging adjacent narration segments\<close>

lemma reindexTimings_index:
  "map wt_index (reindexTimings i ts) = [i..<i + length ts]"
  by (induction ts arbitrary: i) (simp_all add: upt_rec)

text \<open>
  What a group of two or more segments collapses to: the texts joined by single
  spaces, the start of the first segment, the end of the segment sorted last, the
  first audio URL that is not null, and every word timing of the group with indices
  counted from 0.
\<close>

lemma collapseGroup_fields:
  assumes "others \<noteq> []"
  shows "seg_text (collapseGroup newId first others) =
           joinWith [0x20] (map seg_text (first # others))"
    and "seg_startTime (collapseGroup newId first others) = seg_startTime first"
    and "seg_endTime (collapseGroup newId first others) = seg_endTime (last others)"
    and "seg_audioUrl (collapseGroup newId first others) =
           (case find (\<lambda>s. seg_audioUrl s \<noteq> None) (first # others) of
              None \<Rightarrow> None | Some s \<Rightarrow> seg_audioUrl s)"
    and "map wt_index (seg_wordTimings (collapseGroup newId first others)) =
           [0..<length (concat (map seg_wordTimings (first # others)))]"
  using assms reindexTimings_index [of 0 "concat (map seg_wordTimings (first # others))"]
  by (simp_all add: collapseGroup_def Let_def)

text \<open>
  C6 at a concrete input: the segments \<^verbatim>\<open>"a b"\<close> over [0, 10] and \<^verbatim>\<open>"c"\<close> over [1, 2] with
  gap threshold 0.3 form one group of two, since the second starts before the first
  ends. The merged segment has the texts joined by single spaces, the earliest start
  0, the first non-null audio URL and word timings indexed 0, 1, 2, but its endTime is
  2, that of the segment sorted last, while the latest endTime in the group is 10 (and
  its own second word ends at 10).
\<close>

theorem C6_mergeAdjacentSegments_nested:
  "mergeAdjacentSegments sampleIds [outerSegment, innerSegment] 0.3 =
     [\<lparr>seg_id = sampleIds 0, seg_text = [0x61, 0x20, 0x62, 0x20, 0x63], seg_startTime = 0,
       seg_endTime = 2, seg_audioUrl = Some [0x75],
       seg_wordTimings =
         [\<lparr>wt_word = [0x61], wt_startTime = 0, wt_endTime = 5, wt_index = 0\<rparr>,
          \<lparr>wt_word = [0x62], wt_startTime = 5, wt_endTime = 10, wt_index = 1\<rparr>,
          \<lparr>wt_word = [0x63], wt_startTime = 1, wt_endTime = 2, wt_index = 2\<rparr>]\<rparr>] \<and>
   seg_endTime outerSegment = 10 \<and> seg_endTime innerSegment = 2"
  by (simp add: mergeAdjacentSegments_def jsSort_def segmentOrder_def outerSegment_def
      innerSegment_def createNarrationSegment_def collapseGroup_def estimateWordTimings_def
      isWhiteSpace_def sampleIds_def)

end
